theory Spec2Isabelle
  imports Main "HOL-Library.Multiset"
begin

section \<open>Runtime values and the Render Parameters predicate\<close>

text \<open>
  \<^verbatim>\<open>RenderContentParams.is\<close> is a type guard: it is called on a value whose shape is not
  known yet. The values are therefore the runtime values of the language, not the
  interface \<^verbatim>\<open>RenderContentParams\<close>. An object is its list of own properties (key and
  value) together with its prototype, \<open>JSNull\<close> at the end of the chain. Of a number only
  whether it is zero or NaN matters to the predicate, so numbers are integers plus NaN.
\<close>

datatype jsval =
    JSUndefined
  | JSNull
  | JSBoolean bool
  | JSNumber int
  | JSNaN
  | JSString string
  | JSBigInt int
  | JSObject "(string \<times> jsval) list" jsval

datatype error = TypeError

text \<open>The conversion to a boolean that \<^verbatim>\<open>!!params\<close> performs.\<close>

fun ToBoolean :: "jsval \<Rightarrow> bool" where
  "ToBoolean JSUndefined = False"
| "ToBoolean JSNull = False"
| "ToBoolean (JSBoolean b) = b"
| "ToBoolean (JSNumber n) = (n \<noteq> 0)"
| "ToBoolean JSNaN = False"
| "ToBoolean (JSString s) = (s \<noteq> [])"
| "ToBoolean (JSBigInt n) = (n \<noteq> 0)"
| "ToBoolean (JSObject props proto) = True"

text \<open>A key is a property of an object when it is an own key or a key of the prototype chain.\<close>

fun HasProperty :: "jsval \<Rightarrow> string \<Rightarrow> bool" where
  "HasProperty (JSObject props proto) k = (k \<in> set (map fst props) \<or> HasProperty proto k)"
| "HasProperty _ k = False"

text \<open>The operator \<^verbatim>\<open>k in v\<close>: a TypeError when the right operand is not an object.\<close>

fun js_in :: "string \<Rightarrow> jsval \<Rightarrow> error + bool" where
  "js_in k (JSObject props proto) = Inr (HasProperty (JSObject props proto) k)"
| "js_in k _ = Inl TypeError"

text \<open>
  \<^verbatim>\<open>return !!params && 'content' in params && 'originUri' in params;\<close>
  The conjunction is evaluated from the left and stops at the first false operand.
\<close>

definition RenderContentParams_is :: "jsval \<Rightarrow> error + bool" where
  "RenderContentParams_is params =
     (if \<not> ToBoolean params then Inr False
      else case js_in ''content'' params of
             Inl e \<Rightarrow> Inl e
           | Inr False \<Rightarrow> Inr False
           | Inr True \<Rightarrow> js_in ''originUri'' params)"

section \<open>The handler contract\<close>

record 'uri RenderContentParams =
  content :: string
  originUri :: 'uri

text \<open>
  What a call of a handler's \<^verbatim>\<open>canHandle\<close> does: it returns a number, or (outside its
  declared type) something that is not a number, or it throws.
\<close>

datatype outcome = Returns int | NonNumeric | Throws

record ('uri, 'el) PreviewHandler =
  iconClass :: "string option"
  canHandle :: "'uri \<Rightarrow> outcome"
  renderContent :: "'uri RenderContentParams \<Rightarrow> 'el option"
  findElementForFragment :: "('el \<Rightarrow> string \<Rightarrow> 'el option) option"
  findElementForSourceLine :: "('el \<Rightarrow> int \<Rightarrow> 'el option) option"
  getSourceLineForOffset :: "('el \<Rightarrow> int \<Rightarrow> int option) option"

section \<open>Prioritizing\<close>

text \<open>Modelled from the spec: the type \<^verbatim>\<open>Prioritizeable\<close> of the core package is not among the
  sources. The provider reads the field \<^verbatim>\<open>value\<close> of its elements; the other field is the
  Priority Score of section 3, an integer.
\<close>

record 'a Prioritizeable =
  priority :: int
  value' :: 'a

text \<open>Modelled from the spec: section 4.2 treats a handler whose \<^verbatim>\<open>canHandle\<close> throws or
  returns a non-numeric value as non-applicable, that is with a score that is not positive.
\<close>

fun score :: "outcome \<Rightarrow> int" where
  "score (Returns n) = n"
| "score NonNumeric = 0"
| "score Throws = 0"

text \<open>Modelled from the spec: step 1 of the algorithm of section 4.2, the score of every value
  in registration order. The callback is code of the caller and runs in the caller's
  state \<open>'s\<close>; it is called once for each value.
\<close>

primrec computeScores ::
  "'a list \<Rightarrow> ('a \<Rightarrow> 's \<Rightarrow> outcome \<times> 's) \<Rightarrow> 's \<Rightarrow> 'a Prioritizeable list \<times> 's" where
  "computeScores [] getPriority s = ([], s)"
| "computeScores (v # vs) getPriority s =
     (case getPriority v s of (r, s1) \<Rightarrow>
        (case computeScores vs getPriority s1 of (ps, s2) \<Rightarrow>
           (\<lparr>priority = score r, value' = v\<rparr> # ps, s2)))"

text \<open>Modelled from the spec: \<^verbatim>\<open>Prioritizeable.prioritizeAllSync\<close> of the core package is not
  among the sources. Section 4.2 gives its steps: compute the score of every value, discard
  the scores that are not positive, sort the rest by score descending with a stable sort.
  \<open>sort_key\<close> is the insertion sort of the library, ascending in its key and stable.
\<close>

definition prioritizeAllSync ::
  "'a list \<Rightarrow> ('a \<Rightarrow> 's \<Rightarrow> outcome \<times> 's) \<Rightarrow> 's \<Rightarrow> 'a Prioritizeable list \<times> 's" where
  "prioritizeAllSync values getPriority s =
     (case computeScores values getPriority s of (ps, s') \<Rightarrow>
        (sort_key (\<lambda>p. - priority p) (filter (\<lambda>p. 0 < priority p) ps), s'))"

section \<open>The provider\<close>

text \<open>Modelled from the spec: the \<^verbatim>\<open>ContributionProvider\<close> of the core package is not among the
  sources. Section 6 describes it as a stable ordered collection of handler instances, which
  \<^verbatim>\<open>getContributions\<close> hands out.
\<close>

type_synonym 'a ContributionProvider = "'a list"

definition getContributions :: "'a ContributionProvider \<Rightarrow> 'a list" where
  "getContributions cp = cp"

record ('uri, 'el) PreviewHandlerProvider =
  previewHandlerContributions :: "('uri, 'el) PreviewHandler ContributionProvider"

text \<open>
  The methods of the provider run in a state: the provider object itself, and the record
  of the calls made on handlers so far. The record of calls is what makes it visible which
  methods of a handler a query invokes.
\<close>

datatype ('uri, 'el) invocation =
    Invoked_canHandle "('uri, 'el) PreviewHandler" 'uri
  | Invoked_renderContent "('uri, 'el) PreviewHandler" "'uri RenderContentParams"

record ('uri, 'el) world =
  this :: "('uri, 'el) PreviewHandlerProvider"
  invocations :: "('uri, 'el) invocation list"

text \<open>The callback \<^verbatim>\<open>contrib => contrib.canHandle(uri)\<close>.\<close>

definition callCanHandle ::
  "'uri \<Rightarrow> ('uri, 'el) PreviewHandler \<Rightarrow> ('uri, 'el) world \<Rightarrow> outcome \<times> ('uri, 'el) world" where
  "callCanHandle uri contrib w =
     (canHandle contrib uri, w\<lparr>invocations := invocations w @ [Invoked_canHandle contrib uri]\<rparr>)"

definition findContribution ::
  "'uri \<Rightarrow> ('uri, 'el) world \<Rightarrow> ('uri, 'el) PreviewHandler list \<times> ('uri, 'el) world" where
  "findContribution uri w =
     (case prioritizeAllSync (getContributions (previewHandlerContributions (this w)))
             (callCanHandle uri) w of
        (prioritized, w') \<Rightarrow> (map value' prioritized, w'))"

definition PreviewHandlerProvider_canHandle ::
  "'uri \<Rightarrow> ('uri, 'el) world \<Rightarrow> bool \<times> ('uri, 'el) world" where
  "PreviewHandlerProvider_canHandle uri w =
     (case findContribution uri w of (found, w') \<Rightarrow> (length found > 0, w'))"

text \<open>A state in which the given handlers are registered and nothing has been called.\<close>

definition registered :: "('uri, 'el) PreviewHandler list \<Rightarrow> ('uri, 'el) world" where
  "registered hs = \<lparr>this = \<lparr>previewHandlerContributions = hs\<rparr>, invocations = []\<rparr>"

text \<open>
  A handler for the examples: it is told apart by its icon class, renders nothing and has
  none of the optional operations.
\<close>

definition testHandler :: "string \<Rightarrow> (string \<Rightarrow> outcome) \<Rightarrow> (string, unit) PreviewHandler" where
  "testHandler icon f =
     \<lparr>iconClass = Some icon, canHandle = f, renderContent = (\<lambda>p. None),
      findElementForFragment = None, findElementForSourceLine = None,
      getSourceLineForOffset = None\<rparr>"

text \<open>
  Four such handlers. For \<^verbatim>\<open>a.md\<close> they score 5, 5, 0 and 7; for \<^verbatim>\<open>a.markdown\<close>
  the first three score as for \<^verbatim>\<open>a.md\<close>; for \<^verbatim>\<open>b.md\<close> the first throws, the second
  scores 3 and the third returns something that is not a number; for any other resource
  no score is positive.
\<close>

definition handlerX :: "(string, unit) PreviewHandler" where
  "handlerX = testHandler ''x''
     (\<lambda>u. if u = ''a.md'' \<or> u = ''a.markdown'' then Returns 5
          else if u = ''b.md'' then Throws else Returns 0)"

definition handlerY :: "(string, unit) PreviewHandler" where
  "handlerY = testHandler ''y''
     (\<lambda>u. if u = ''a.md'' \<or> u = ''a.markdown'' then Returns 5
          else if u = ''b.md'' then Returns 3 else Returns (- 1))"

definition handlerZ :: "(string, unit) PreviewHandler" where
  "handlerZ = testHandler ''z'' (\<lambda>u. if u = ''b.md'' then NonNumeric else Returns 0)"

definition handlerW :: "(string, unit) PreviewHandler" where
  "handlerW = testHandler ''w'' (\<lambda>u. if u = ''a.md'' then Returns 7 else Returns 0)"

section \<open>The query as it runs\<close>

text \<open>
  So far a handler's \<^verbatim>\<open>canHandle\<close> was a function of the resource, and a handler that
  throws was given the score 0, in the words of section 4.2. This part follows the source
  as it runs. A call of \<^verbatim>\<open>canHandle\<close> reads the surroundings \<open>'env\<close> (the content of
  the resource, the handler's own state) and may change them, so the score of one resource
  can differ from one call to the next; and it returns a number or throws a value.
\<close>

record ('uri, 'env) LivePreviewHandler =
  liveIconClass :: "string option"
  liveCanHandle :: "'uri \<Rightarrow> 'env \<Rightarrow> (jsval + int) \<times> 'env"

text \<open>
  What a query asked and was answered: the handler, the resource, and the number returned
  or the value thrown.
\<close>

datatype ('uri, 'env) observation =
  Observed (asked: "('uri, 'env) LivePreviewHandler") (about: 'uri) (answer: "jsval + int")

text \<open>
  The state a query runs in: the provider's field \<^verbatim>\<open>previewHandlerContributions\<close>, the
  surroundings, and the calls of \<^verbatim>\<open>canHandle\<close> made so far with their answers.
\<close>

record ('uri, 'env) running =
  contributions :: "('uri, 'env) LivePreviewHandler ContributionProvider"
  surroundings :: 'env
  observed :: "('uri, 'env) observation list"

text \<open>Modelled from the spec: step 1 of the algorithm of section 4.2 for a callback that
  may throw. The steps say nothing of exceptions, and nothing handles one: the value thrown
  by the callback ends the scoring at that call, and the values after it are not scored.
\<close>

primrec scoreEach ::
  "'a list \<Rightarrow> ('a \<Rightarrow> 's \<Rightarrow> (jsval + int) \<times> 's) \<Rightarrow> 's
     \<Rightarrow> (jsval + 'a Prioritizeable list) \<times> 's" where
  "scoreEach [] getPriority s = (Inr [], s)"
| "scoreEach (v # vs) getPriority s =
     (case getPriority v s of
        (Inl e, s1) \<Rightarrow> (Inl e, s1)
      | (Inr n, s1) \<Rightarrow>
          (case scoreEach vs getPriority s1 of
             (Inl e, s2) \<Rightarrow> (Inl e, s2)
           | (Inr ps, s2) \<Rightarrow> (Inr (\<lparr>priority = n, value' = v\<rparr> # ps), s2)))"

text \<open>Modelled from the spec: \<^verbatim>\<open>Prioritizeable.prioritizeAllSync\<close> as the steps of
  section 4.2 alone: score every value, discard the scores that are not positive, sort the
  rest by score descending with a stable sort. A value thrown during step 1 leaves the
  helper.
\<close>

definition prioritizeAllSync_run ::
  "'a list \<Rightarrow> ('a \<Rightarrow> 's \<Rightarrow> (jsval + int) \<times> 's) \<Rightarrow> 's
     \<Rightarrow> (jsval + 'a Prioritizeable list) \<times> 's" where
  "prioritizeAllSync_run values getPriority s =
     (case scoreEach values getPriority s of
        (Inl e, s') \<Rightarrow> (Inl e, s')
      | (Inr ps, s') \<Rightarrow>
          (Inr (sort_key (\<lambda>p. - priority p) (filter (\<lambda>p. 0 < priority p) ps)), s'))"

text \<open>
  The callback \<^verbatim>\<open>contrib => contrib.canHandle(uri)\<close>: the source has no \<^verbatim>\<open>try\<close> around
  the call, so what the handler throws is what the callback throws.
\<close>

definition callCanHandle_run ::
  "'uri \<Rightarrow> ('uri, 'env) LivePreviewHandler \<Rightarrow> ('uri, 'env) running
     \<Rightarrow> (jsval + int) \<times> ('uri, 'env) running" where
  "callCanHandle_run uri contrib w =
     (case liveCanHandle contrib uri (surroundings w) of
        (r, env') \<Rightarrow>
          (r, w\<lparr>surroundings := env', observed := observed w @ [Observed contrib uri r]\<rparr>))"

text \<open>
  \<^verbatim>\<open>findContribution\<close>: the source has no \<^verbatim>\<open>try\<close> around the helper either, so a
  value thrown there leaves \<^verbatim>\<open>findContribution\<close> and no list is returned.
\<close>

definition findContribution_run ::
  "'uri \<Rightarrow> ('uri, 'env) running
     \<Rightarrow> (jsval + ('uri, 'env) LivePreviewHandler list) \<times> ('uri, 'env) running" where
  "findContribution_run uri w =
     (case prioritizeAllSync_run (getContributions (contributions w)) (callCanHandle_run uri) w of
        (Inl e, w') \<Rightarrow> (Inl e, w')
      | (Inr prioritized, w') \<Rightarrow> (Inr (map value' prioritized), w'))"

text \<open>
  The calls that one query makes: what the query adds to the record of calls.
\<close>

definition observedBy :: "'uri \<Rightarrow> ('uri, 'env) running \<Rightarrow> ('uri, 'env) observation list" where
  "observedBy uri w = drop (length (observed w)) (observed (snd (findContribution_run uri w)))"

text \<open>
  A state in which the given handlers are registered and nothing has been called.
\<close>

definition started ::
  "('uri, 'env) LivePreviewHandler list \<Rightarrow> 'env \<Rightarrow> ('uri, 'env) running" where
  "started hs env = \<lparr>contributions = hs, surroundings = env, observed = []\<rparr>"

text \<open>
  The scored values that a sequence of answers amounts to, for the values in order: the
  first thrown value if there is one.
\<close>

primrec scoresFrom :: "'a list \<Rightarrow> (jsval + int) list \<Rightarrow> jsval + 'a Prioritizeable list" where
  "scoresFrom [] rs = Inr []"
| "scoresFrom (v # vs) rs =
     (case rs of
        [] \<Rightarrow> Inr []
      | Inl e # rs' \<Rightarrow> Inl e
      | Inr n # rs' \<Rightarrow>
          (case scoresFrom vs rs' of
             Inl e \<Rightarrow> Inl e
           | Inr ps \<Rightarrow> Inr (\<lparr>priority = n, value' = v\<rparr> # ps)))"

text \<open>
  Three handlers for the examples, in surroundings that are a counter. The first throws
  for \<^verbatim>\<open>b.md\<close> and scores 5 otherwise; the second always scores 3; the third scores 5
  when the counter is even and 2 when it is odd, and advances the counter at each call.
\<close>

definition throwingX :: "(string, nat) LivePreviewHandler" where
  "throwingX = \<lparr>liveIconClass = Some ''x'',
     liveCanHandle = (\<lambda>u n. (if u = ''b.md'' then Inl (JSString ''boom'') else Inr 5, n))\<rparr>"

definition scoringY :: "(string, nat) LivePreviewHandler" where
  "scoringY = \<lparr>liveIconClass = Some ''y'', liveCanHandle = (\<lambda>u n. (Inr 3, n))\<rparr>"

definition changingP :: "(string, nat) LivePreviewHandler" where
  "changingP = \<lparr>liveIconClass = Some ''p'',
     liveCanHandle = (\<lambda>u n. (Inr (if even n then 5 else 2), Suc n))\<rparr>"

section \<open>The Render Parameters predicate\<close>

lemma RenderContentParams_is_object:
  "RenderContentParams_is (JSObject props proto) =
     Inr (HasProperty (JSObject props proto) ''content''
          \<and> HasProperty (JSObject props proto) ''originUri'')"
  by (simp add: RenderContentParams_is_def split: bool.splits)

lemma RenderContentParams_is_True_iff:
  "RenderContentParams_is v = Inr True
     \<longleftrightarrow> HasProperty v ''content'' \<and> HasProperty v ''originUri''"
proof (cases v)
  case (JSObject props proto)
  then show ?thesis by (simp add: RenderContentParams_is_object)
qed (simp_all add: RenderContentParams_is_def)

text \<open>
  C5, as amended. The predicate answers false for \<^verbatim>\<open>undefined\<close>, false for an object
  that has no \<^verbatim>\<open>content\<close> key, false for an object that has no \<^verbatim>\<open>originUri\<close> key, and
  true exactly when both keys are properties of the argument. Only the presence of the
  keys counts: the values bound to them are never read.
\<close>

theorem RenderContentParams_is_presence:
  "RenderContentParams_is JSUndefined = Inr False
   \<and> (\<not> HasProperty (JSObject props1 proto1) ''content''
        \<longrightarrow> RenderContentParams_is (JSObject props1 proto1) = Inr False)
   \<and> (\<not> HasProperty (JSObject props2 proto2) ''originUri''
        \<longrightarrow> RenderContentParams_is (JSObject props2 proto2) = Inr False)
   \<and> (RenderContentParams_is v = Inr True
        \<longleftrightarrow> HasProperty v ''content'' \<and> HasProperty v ''originUri'')"
proof -
  have undef: "RenderContentParams_is JSUndefined = Inr False"
    by (simp add: RenderContentParams_is_def)
  have no_content: "\<not> HasProperty (JSObject props1 proto1) ''content''
      \<longrightarrow> RenderContentParams_is (JSObject props1 proto1) = Inr False"
    by (simp add: RenderContentParams_is_object)
  have no_origin: "\<not> HasProperty (JSObject props2 proto2) ''originUri''
      \<longrightarrow> RenderContentParams_is (JSObject props2 proto2) = Inr False"
    by (simp add: RenderContentParams_is_object)
  from undef no_content no_origin RenderContentParams_is_True_iff [of v]
  show ?thesis by blast
qed

theorem RenderContentParams_is_presence_witness:
  "\<not> HasProperty (JSObject [(''originUri'', JSString ''file:///a.md'')] JSNull) ''content''
   \<and> RenderContentParams_is (JSObject [(''originUri'', JSString ''file:///a.md'')] JSNull)
       = Inr False
   \<and> \<not> HasProperty (JSObject [(''content'', JSString ''# a'')] JSNull) ''originUri''
   \<and> RenderContentParams_is (JSObject [(''content'', JSString ''# a'')] JSNull) = Inr False
   \<and> HasProperty
         (JSObject [(''content'', JSString ''# a''), (''originUri'', JSString ''file:///a.md'')]
            JSNull) ''content''
   \<and> HasProperty
         (JSObject [(''content'', JSString ''# a''), (''originUri'', JSString ''file:///a.md'')]
            JSNull) ''originUri''
   \<and> RenderContentParams_is
         (JSObject [(''content'', JSString ''# a''), (''originUri'', JSString ''file:///a.md'')]
            JSNull) = Inr True"
  using RenderContentParams_is_presence
    [of "[(''originUri'', JSString ''file:///a.md'')]" JSNull
        "[(''content'', JSString ''# a'')]" JSNull
        "JSObject [(''content'', JSString ''# a''), (''originUri'', JSString ''file:///a.md'')]
           JSNull"]
  by simp

text \<open>
  C5, as the claim states it, fails: an object whose \<^verbatim>\<open>content\<close> field is undefined is
  accepted, since the key is there.
\<close>

theorem RenderContentParams_is_undefined_field_counterexample:
  "map_of [(''content'', JSUndefined), (''originUri'', JSString ''file:///a.md'')] ''content''
     = Some JSUndefined
   \<and> RenderContentParams_is
         (JSObject [(''content'', JSUndefined), (''originUri'', JSString ''file:///a.md'')]
            JSNull) = Inr True"
  by (simp add: RenderContentParams_is_def)

text \<open>
  C9. The predicate answers false for every falsy argument, for \<^verbatim>\<open>null\<close> as for
  \<^verbatim>\<open>undefined\<close>: the guard \<^verbatim>\<open>!!params\<close> rejects the argument before a key is looked up, so
  no TypeError arises either.
\<close>

theorem RenderContentParams_is_falsy:
  "(\<not> ToBoolean v \<longrightarrow> RenderContentParams_is v = Inr False)
   \<and> RenderContentParams_is JSNull = Inr False
   \<and> RenderContentParams_is JSUndefined = Inr False"
  by (simp add: RenderContentParams_is_def)

theorem RenderContentParams_is_falsy_witness:
  "\<not> ToBoolean (JSNumber 0) \<and> RenderContentParams_is (JSNumber 0) = Inr False"
  using RenderContentParams_is_falsy [of "JSNumber 0"] by simp

text \<open>
  C10. The predicate checks that the keys are there, and nothing else. For an object
  without prototype it is true exactly when both keys are own keys; with a prototype, when
  each key is an own key or a property of the prototype. The values bound to the keys are
  never read: two objects with the same keys get the same answer, and an object with both
  keys is accepted whatever the keys are bound to, \<^verbatim>\<open>undefined\<close> included.
\<close>

theorem RenderContentParams_is_keys_only:
  "RenderContentParams_is (JSObject props JSNull)
     = Inr (''content'' \<in> fst ` set props \<and> ''originUri'' \<in> fst ` set props)
   \<and> RenderContentParams_is (JSObject props proto)
     = Inr ((''content'' \<in> fst ` set props \<or> HasProperty proto ''content'')
          \<and> (''originUri'' \<in> fst ` set props \<or> HasProperty proto ''originUri''))
   \<and> (map fst props = map fst props'
        \<longrightarrow> RenderContentParams_is (JSObject props proto)
            = RenderContentParams_is (JSObject props' proto))
   \<and> ((''content'', vc) \<in> set props \<longrightarrow> (''originUri'', vo) \<in> set props
        \<longrightarrow> RenderContentParams_is (JSObject props proto) = Inr True)"
proof -
  have chain: "RenderContentParams_is (JSObject ps proto)
     = Inr ((''content'' \<in> fst ` set ps \<or> HasProperty proto ''content'')
          \<and> (''originUri'' \<in> fst ` set ps \<or> HasProperty proto ''originUri''))" for ps
    by (simp add: RenderContentParams_is_object)
  have own: "RenderContentParams_is (JSObject props JSNull)
     = Inr (''content'' \<in> fst ` set props \<and> ''originUri'' \<in> fst ` set props)"
    by (simp add: RenderContentParams_is_object)
  have same_keys: "map fst props = map fst props'
        \<longrightarrow> RenderContentParams_is (JSObject props proto)
            = RenderContentParams_is (JSObject props' proto)"
  proof
    assume "map fst props = map fst props'"
    then have "fst ` set props = fst ` set props'"
      by (metis set_map)
    then show "RenderContentParams_is (JSObject props proto)
            = RenderContentParams_is (JSObject props' proto)"
      by (simp add: chain)
  qed
  have accepted: "(''content'', vc) \<in> set props \<longrightarrow> (''originUri'', vo) \<in> set props
        \<longrightarrow> RenderContentParams_is (JSObject props proto) = Inr True"
    by (force simp add: chain)
  from own chain[of props] same_keys accepted show ?thesis by blast
qed

theorem RenderContentParams_is_keys_only_witness:
  "map fst [(''content'', JSUndefined), (''originUri'', JSUndefined)]
     = map fst [(''content'', JSString ''# a''), (''originUri'', JSString ''file:///a.md'')]
   \<and> RenderContentParams_is
         (JSObject [(''content'', JSUndefined), (''originUri'', JSUndefined)] JSNull) = Inr True
   \<and> RenderContentParams_is
         (JSObject [(''content'', JSString ''# a''), (''originUri'', JSString ''file:///a.md'')]
            JSNull) = Inr True
   \<and> (''content'', JSUndefined) \<in> set [(''content'', JSUndefined), (''originUri'', JSUndefined)]
   \<and> (''originUri'', JSUndefined) \<in> set [(''content'', JSUndefined), (''originUri'', JSUndefined)]"
  using RenderContentParams_is_keys_only
    [of "[(''content'', JSUndefined), (''originUri'', JSUndefined)]" JSNull
        "[(''content'', JSString ''# a''), (''originUri'', JSString ''file:///a.md'')]"
        JSUndefined JSUndefined]
  by (simp add: RenderContentParams_is_def)

section \<open>What a query returns and what it does\<close>

text \<open>
  The scores of the registered handlers are taken in registration order, one call of
  \<^verbatim>\<open>canHandle\<close> for each handler, and the state changes by the record of these calls only.
\<close>

lemma computeScores_callCanHandle:
  "computeScores hs (callCanHandle uri) w =
     (map (\<lambda>h. \<lparr>priority = score (canHandle h uri), value' = h\<rparr>) hs,
      w\<lparr>invocations := invocations w @ map (\<lambda>h. Invoked_canHandle h uri) hs\<rparr>)"
  by (induction hs arbitrary: w) (simp_all add: callCanHandle_def)

text \<open>Sorting the scored pairs and then dropping the scores is sorting the values.\<close>

lemma insort_key_map_mk:
  "insort_key (\<lambda>p. - priority p) \<lparr>priority = f x, value' = x\<rparr>
       (map (\<lambda>x. \<lparr>priority = f x, value' = x\<rparr>) xs)
     = map (\<lambda>x. \<lparr>priority = f x, value' = x\<rparr>) (insort_key (\<lambda>x. - f x) x xs)"
  by (induction xs) simp_all

lemma sort_key_map_mk:
  "sort_key (\<lambda>p. - priority p) (map (\<lambda>x. \<lparr>priority = f x, value' = x\<rparr>) xs)
     = map (\<lambda>x. \<lparr>priority = f x, value' = x\<rparr>) (sort_key (\<lambda>x. - f x) xs)"
  by (induction xs) (simp_all add: insort_key_map_mk)

lemma filter_map_mk:
  "filter (\<lambda>p. 0 < priority p) (map (\<lambda>x. \<lparr>priority = f x, value' = x\<rparr>) xs)
     = map (\<lambda>x. \<lparr>priority = f x, value' = x\<rparr>) (filter (\<lambda>x. 0 < f x) xs)"
  by (induction xs) simp_all

text \<open>
  A query returns the registered handlers with a positive score, sorted on the negated
  score by the stable insertion sort, and records one call of \<^verbatim>\<open>canHandle\<close> for each
  registered handler.
\<close>

lemma findContribution_eq:
  "findContribution uri w =
     (sort_key (\<lambda>h. - score (canHandle h uri))
        (filter (\<lambda>h. 0 < score (canHandle h uri)) (previewHandlerContributions (this w))),
      w\<lparr>invocations := invocations w
           @ map (\<lambda>h. Invoked_canHandle h uri) (previewHandlerContributions (this w))\<rparr>)"
  by (simp add: findContribution_def prioritizeAllSync_def getContributions_def
      computeScores_callCanHandle filter_map_mk sort_key_map_mk o_def)

text \<open>The definitions that evaluate a query on the example handlers.\<close>

lemmas test_defs = handlerX_def handlerY_def handlerZ_def handlerW_def testHandler_def
  registered_def findContribution_def prioritizeAllSync_def getContributions_def
  callCanHandle_def PreviewHandlerProvider_canHandle_def

text \<open>
  C1. The list that \<^verbatim>\<open>findContribution\<close> returns is sorted by score, descending, and for
  every score \<open>k\<close> the returned handlers with score \<open>k\<close> are the registered handlers
  with that score, in registration order (none when \<open>k\<close> is not positive): ties keep
  the order of registration.
\<close>

theorem findContribution_sorted_stable:
  "sorted_wrt (\<lambda>a b. score (canHandle b uri) \<le> score (canHandle a uri))
     (fst (findContribution uri w))
   \<and> filter (\<lambda>h. score (canHandle h uri) = k) (fst (findContribution uri w))
       = filter (\<lambda>h. score (canHandle h uri) = k \<and> 0 < k)
           (previewHandlerContributions (this w))"
proof
  let ?f = "\<lambda>h. - score (canHandle h uri)"
  have "sorted (map ?f (fst (findContribution uri w)))"
    by (simp add: findContribution_eq)
  then show "sorted_wrt (\<lambda>a b. score (canHandle b uri) \<le> score (canHandle a uri))
     (fst (findContribution uri w))"
    by (simp add: sorted_map)
next
  let ?f = "\<lambda>h. - score (canHandle h uri)"
  let ?hs = "previewHandlerContributions (this w)"
  have "filter (\<lambda>h. ?f h = - k) (fst (findContribution uri w))
     = filter (\<lambda>h. ?f h = - k) (filter (\<lambda>h. 0 < score (canHandle h uri)) ?hs)"
    by (simp only: findContribution_eq fst_conv sort_key_stable)
  then show "filter (\<lambda>h. score (canHandle h uri) = k) (fst (findContribution uri w))
       = filter (\<lambda>h. score (canHandle h uri) = k \<and> 0 < k) ?hs"
    by (simp add: conj_commute cong: conj_cong)
qed

theorem findContribution_sorted_stable_witness:
  "fst (findContribution ''a.md'' (registered [handlerX, handlerY, handlerZ, handlerW]))
     = [handlerW, handlerX, handlerY]
   \<and> map (\<lambda>h. score (canHandle h ''a.md'')) [handlerW, handlerX, handlerY] = [7, 5, 5]
   \<and> sorted_wrt (\<lambda>a b. score (canHandle b ''a.md'') \<le> score (canHandle a ''a.md''))
        (fst (findContribution ''a.md'' (registered [handlerX, handlerY, handlerZ, handlerW])))
   \<and> filter (\<lambda>h. score (canHandle h ''a.md'') = 5)
        (fst (findContribution ''a.md'' (registered [handlerX, handlerY, handlerZ, handlerW])))
       = [handlerX, handlerY]"
  using findContribution_sorted_stable
    [of "''a.md''" "registered [handlerX, handlerY, handlerZ, handlerW]" 5]
  by (simp add: test_defs)

text \<open>
  C2. The list that \<^verbatim>\<open>findContribution\<close> returns holds exactly the registered handlers
  with a positive score, each registration once (as multisets), no handler in it has a
  score of zero or less, and it has no repetition when the registration sequence has none.
\<close>

theorem findContribution_exactly_applicable:
  "mset (fst (findContribution uri w))
     = filter_mset (\<lambda>h. 0 < score (canHandle h uri))
         (mset (previewHandlerContributions (this w)))
   \<and> (\<forall>h \<in> set (fst (findContribution uri w)). 0 < score (canHandle h uri))
   \<and> (distinct (previewHandlerContributions (this w))
        \<longrightarrow> distinct (fst (findContribution uri w)))"
  by (simp add: findContribution_eq)

theorem findContribution_exactly_applicable_witness:
  "distinct [handlerX, handlerY, handlerZ]
   \<and> fst (findContribution ''a.md'' (registered [handlerX, handlerY, handlerZ]))
       = [handlerX, handlerY]
   \<and> mset (fst (findContribution ''a.md'' (registered [handlerX, handlerY, handlerZ])))
       = {#handlerX, handlerY#}
   \<and> map (\<lambda>h. score (canHandle h ''a.md'')) [handlerX, handlerY, handlerZ] = [5, 5, 0]
   \<and> distinct (fst (findContribution ''a.md'' (registered [handlerX, handlerY, handlerZ])))"
  using findContribution_exactly_applicable
    [of "''a.md''" "registered [handlerX, handlerY, handlerZ]"]
  by (simp add: test_defs)

text \<open>
  C4. The provider's \<^verbatim>\<open>canHandle\<close> is true exactly when \<^verbatim>\<open>findContribution\<close> returns a
  list that is not empty; when no registered handler has a positive score the list is
  empty and \<^verbatim>\<open>canHandle\<close> is false.
\<close>

theorem canHandle_iff_findContribution_nonempty:
  "(fst (PreviewHandlerProvider_canHandle uri w) \<longleftrightarrow> length (fst (findContribution uri w)) > 0)
   \<and> ((\<forall>h \<in> set (previewHandlerContributions (this w)). score (canHandle h uri) \<le> 0)
        \<longrightarrow> fst (findContribution uri w) = []
            \<and> \<not> fst (PreviewHandlerProvider_canHandle uri w))"
proof -
  have derived: "fst (PreviewHandlerProvider_canHandle uri w)
      \<longleftrightarrow> length (fst (findContribution uri w)) > 0"
    by (simp add: PreviewHandlerProvider_canHandle_def split: prod.splits)
  have none: "(\<forall>h \<in> set (previewHandlerContributions (this w)). score (canHandle h uri) \<le> 0)
      \<longrightarrow> fst (findContribution uri w) = []"
  proof
    assume "\<forall>h \<in> set (previewHandlerContributions (this w)). score (canHandle h uri) \<le> 0"
    then have "filter (\<lambda>h. 0 < score (canHandle h uri)) (previewHandlerContributions (this w)) = []"
      by (auto simp add: filter_empty_conv)
    then show "fst (findContribution uri w) = []"
      by (simp add: findContribution_eq)
  qed
  from derived none show ?thesis by auto
qed

theorem canHandle_iff_findContribution_nonempty_witness:
  "previewHandlerContributions (this (registered [handlerX, handlerY, handlerZ]))
     = [handlerX, handlerY, handlerZ]
   \<and> map (\<lambda>h. score (canHandle h ''c.txt'')) [handlerX, handlerY, handlerZ] = [0, - 1, 0]
   \<and> fst (findContribution ''c.txt'' (registered [handlerX, handlerY, handlerZ])) = []
   \<and> \<not> fst (PreviewHandlerProvider_canHandle ''c.txt'' (registered [handlerX, handlerY, handlerZ]))
   \<and> fst (PreviewHandlerProvider_canHandle ''a.md'' (registered [handlerX, handlerY, handlerZ]))
   \<and> length (fst (findContribution ''a.md'' (registered [handlerX, handlerY, handlerZ]))) = 2"
  using canHandle_iff_findContribution_nonempty
    [of "''c.txt''" "registered [handlerX, handlerY, handlerZ]"]
    canHandle_iff_findContribution_nonempty
    [of "''a.md''" "registered [handlerX, handlerY, handlerZ]"]
  by (simp add: test_defs)

text \<open>
  C6. A query returns its list at once and leaves the provider as it was: the state after
  the query is the state before it with one call of \<^verbatim>\<open>canHandle\<close> recorded for each
  registered handler, and no call of \<^verbatim>\<open>renderContent\<close> is recorded that was not there
  before. That \<^verbatim>\<open>canHandle\<close> of a handler does not itself touch the provider is the
  contract of section 4.1.
\<close>

theorem findContribution_frame:
  "this (snd (findContribution uri w)) = this w
   \<and> snd (findContribution uri w)
       = w\<lparr>invocations := invocations w
            @ map (\<lambda>h. Invoked_canHandle h uri) (previewHandlerContributions (this w))\<rparr>
   \<and> (\<forall>h p. Invoked_renderContent h p \<in> set (invocations (snd (findContribution uri w)))
          \<longrightarrow> Invoked_renderContent h p \<in> set (invocations w))"
  by (auto simp add: findContribution_eq)

theorem findContribution_frame_witness:
  "this (snd (findContribution ''a.md'' (registered [handlerX, handlerY, handlerZ])))
     = \<lparr>previewHandlerContributions = [handlerX, handlerY, handlerZ]\<rparr>
   \<and> invocations (snd (findContribution ''a.md'' (registered [handlerX, handlerY, handlerZ])))
       = [Invoked_canHandle handlerX ''a.md'', Invoked_canHandle handlerY ''a.md'',
          Invoked_canHandle handlerZ ''a.md'']
   \<and> (\<forall>h p. Invoked_renderContent h p
          \<notin> set (invocations
                (snd (findContribution ''a.md'' (registered [handlerX, handlerY, handlerZ])))))"
  using findContribution_frame [of "''a.md''" "registered [handlerX, handlerY, handlerZ]"]
  by (simp add: registered_def)

section \<open>What a query does as it runs\<close>

text \<open>
  The scoring asks the registered handlers in order, each at most once, and stops at the
  first that throws. What it returns is what the answers of these calls amount to.
\<close>

lemma scoreEach_observed:
  "scoreEach hs (callCanHandle_run uri) w = (r, w') \<Longrightarrow>
     \<exists>new. observed w' = observed w @ new
        \<and> contributions w' = contributions w
        \<and> map asked new = take (length new) hs
        \<and> r = scoresFrom hs (map answer new)
        \<and> (\<forall>ps. r = Inr ps \<longrightarrow> length new = length hs)
        \<and> (\<forall>e. r = Inl e \<longrightarrow> new \<noteq> [] \<and> answer (last new) = Inl e)
        \<and> (\<forall>e h u. Observed h u (Inl e) \<in> set new \<longrightarrow> r = Inl e)
        \<and> (\<forall>ob \<in> set new. about ob = uri)"
proof (induction hs arbitrary: w r w')
  case Nil
  then show ?case by auto
next
  case (Cons h hs)
  obtain a env' where call: "liveCanHandle h uri (surroundings w) = (a, env')"
    by (cases "liveCanHandle h uri (surroundings w)")
  let ?w1 = "w\<lparr>surroundings := env', observed := observed w @ [Observed h uri a]\<rparr>"
  have step: "callCanHandle_run uri h w = (a, ?w1)"
    using call by (simp add: callCanHandle_run_def)
  show ?case
  proof (cases a)
    case (Inl e)
    with Cons.prems step have "r = Inl e" "w' = ?w1"
      by simp_all
    then show ?thesis using Inl
      by (intro exI[of _ "[Observed h uri a]"]) auto
  next
    case (Inr n)
    obtain r2 w2 where rest: "scoreEach hs (callCanHandle_run uri) ?w1 = (r2, w2)"
      by (cases "scoreEach hs (callCanHandle_run uri) ?w1")
    from Cons.IH[OF rest] obtain new where new:
      "observed w2 = observed ?w1 @ new" "contributions w2 = contributions ?w1"
      "map asked new = take (length new) hs" "r2 = scoresFrom hs (map answer new)"
      "\<forall>ps. r2 = Inr ps \<longrightarrow> length new = length hs"
      "\<forall>e. r2 = Inl e \<longrightarrow> new \<noteq> [] \<and> answer (last new) = Inl e"
      "\<forall>e h u. Observed h u (Inl e) \<in> set new \<longrightarrow> r2 = Inl e"
      "\<forall>ob \<in> set new. about ob = uri"
      by blast
    from Cons.prems step Inr rest have res: "w' = w2"
      "r = (case r2 of Inl e \<Rightarrow> Inl e | Inr ps \<Rightarrow> Inr (\<lparr>priority = n, value' = h\<rparr> # ps))"
      by (auto split: sum.splits)
    show ?thesis using new res Inr
      by (intro exI[of _ "Observed h uri a # new"]) (auto split: sum.splits)
  qed
qed

lemma findContribution_run_observed:
  assumes "findContribution_run uri w = (r, w')"
  shows "observed w' = observed w @ observedBy uri w
     \<and> contributions w' = contributions w
     \<and> map asked (observedBy uri w) = take (length (observedBy uri w)) (contributions w)
     \<and> r = (case scoresFrom (contributions w) (map answer (observedBy uri w)) of
              Inl e \<Rightarrow> Inl e
            | Inr ps \<Rightarrow>
                Inr (map value' (sort_key (\<lambda>p. - priority p) (filter (\<lambda>p. 0 < priority p) ps))))
     \<and> (\<forall>e. r = Inl e \<longleftrightarrow> (\<exists>h u. Observed h u (Inl e) \<in> set (observedBy uri w)))
     \<and> (\<forall>ob \<in> set (observedBy uri w). about ob = uri)"
proof -
  obtain r0 where helper: "scoreEach (contributions w) (callCanHandle_run uri) w = (r0, w')"
    and r: "r = (case r0 of Inl e \<Rightarrow> Inl e
          | Inr ps \<Rightarrow>
              Inr (map value' (sort_key (\<lambda>p. - priority p) (filter (\<lambda>p. 0 < priority p) ps))))"
    using assms
    by (cases "scoreEach (contributions w) (callCanHandle_run uri) w")
      (auto simp add: findContribution_run_def prioritizeAllSync_run_def getContributions_def
        split: sum.splits)
  from scoreEach_observed[OF helper] obtain new where new:
    "observed w' = observed w @ new" "contributions w' = contributions w"
    "map asked new = take (length new) (contributions w)"
    "r0 = scoresFrom (contributions w) (map answer new)"
    "\<forall>e. r0 = Inl e \<longrightarrow> new \<noteq> [] \<and> answer (last new) = Inl e"
    "\<forall>e h u. Observed h u (Inl e) \<in> set new \<longrightarrow> r0 = Inl e"
    "\<forall>ob \<in> set new. about ob = uri"
    by blast
  have by_query: "observedBy uri w = new"
    using assms new(1) by (simp add: observedBy_def)
  have thrown: "r = Inl e \<longleftrightarrow> (\<exists>h u. Observed h u (Inl e) \<in> set new)" for e
  proof
    assume "r = Inl e"
    with r have "r0 = Inl e" by (auto split: sum.splits)
    with new(5) have "new \<noteq> []" "answer (last new) = Inl e" by auto
    then have "last new \<in> set new" "last new = Observed (asked (last new)) (about (last new)) (Inl e)"
      by (auto simp add: observation.expand)
    then show "\<exists>h u. Observed h u (Inl e) \<in> set new" by metis
  next
    assume "\<exists>h u. Observed h u (Inl e) \<in> set new"
    with new(6) have "r0 = Inl e" by blast
    with r show "r = Inl e" by simp
  qed
  from new r thrown show ?thesis unfolding by_query by blast
qed

text \<open>
  On a callback that returns numbers, the helper of this part is the helper of the first
  part: the two differ on a throwing callback only.
\<close>

lemma scoreEach_numbers:
  "scoreEach vs (\<lambda>v s. (Inr (f v), g v s)) s
     = (Inr (fst (computeScores vs (\<lambda>v s. (Returns (f v), g v s)) s)),
        snd (computeScores vs (\<lambda>v s. (Returns (f v), g v s)) s))"
  by (induction vs arbitrary: s) (simp_all split: prod.splits)

lemma prioritizeAllSync_run_numbers:
  "prioritizeAllSync_run vs (\<lambda>v s. (Inr (f v), g v s)) s
     = (Inr (fst (prioritizeAllSync vs (\<lambda>v s. (Returns (f v), g v s)) s)),
        snd (prioritizeAllSync vs (\<lambda>v s. (Returns (f v), g v s)) s))"
  by (simp add: prioritizeAllSync_run_def prioritizeAllSync_def scoreEach_numbers
      split: prod.splits)

text \<open>The definitions that evaluate a running query on the example handlers.\<close>

lemmas run_defs = throwingX_def scoringY_def changingP_def started_def observedBy_def
  findContribution_run_def prioritizeAllSync_run_def callCanHandle_run_def getContributions_def




text \<open>
  C7. A query ranks by the one snapshot of scores it takes. The calls it makes are added
  to the record of calls and are calls for its own resource, one for each registered
  handler in registration order (up to the first that throws). What the query returns
  depends on these answers and on nothing else: two queries over the same registration
  sequence whose calls are answered alike return the same, whatever the resources, the
  surroundings and the calls of earlier queries.
\<close>

theorem findContribution_run_snapshot:
  "observed (snd (findContribution_run uri w)) = observed w @ observedBy uri w
   \<and> map asked (observedBy uri w) = take (length (observedBy uri w)) (contributions w)
   \<and> (\<forall>ob \<in> set (observedBy uri w). about ob = uri)
   \<and> (contributions w = contributions w'
        \<longrightarrow> map answer (observedBy uri w) = map answer (observedBy uri' w')
        \<longrightarrow> fst (findContribution_run uri w) = fst (findContribution_run uri' w'))"
proof -
  obtain r v where run: "findContribution_run uri w = (r, v)"
    by (cases "findContribution_run uri w")
  obtain r' v' where run': "findContribution_run uri' w' = (r', v')"
    by (cases "findContribution_run uri' w'")
  note facts = findContribution_run_observed[OF run]
  note facts' = findContribution_run_observed[OF run']
  have same: "contributions w = contributions w'
        \<longrightarrow> map answer (observedBy uri w) = map answer (observedBy uri' w') \<longrightarrow> r = r'"
  proof (intro impI)
    assume "contributions w = contributions w'"
      and "map answer (observedBy uri w) = map answer (observedBy uri' w')"
    then have "scoresFrom (contributions w) (map answer (observedBy uri w))
        = scoresFrom (contributions w') (map answer (observedBy uri' w'))"
      by simp
    with facts facts' show "r = r'" by simp
  qed
  from facts same run run' show ?thesis by simp
qed

theorem findContribution_run_snapshot_witness:
  "map answer (observedBy ''a.md'' (started [scoringY, changingP] 0)) = [Inr 3, Inr 5]
   \<and> fst (findContribution_run ''a.md'' (started [scoringY, changingP] 0))
       = Inr [changingP, scoringY]
   \<and> map answer (observedBy ''a.md''
         (snd (findContribution_run ''a.md'' (started [scoringY, changingP] 0))))
       = [Inr 3, Inr 2]
   \<and> fst (findContribution_run ''a.md''
         (snd (findContribution_run ''a.md'' (started [scoringY, changingP] 0))))
       = Inr [scoringY, changingP]
   \<and> contributions (started [scoringY, changingP] 0)
       = contributions (snd (findContribution_run ''c.txt''
           (snd (findContribution_run ''a.md'' (started [scoringY, changingP] 0)))))
   \<and> map answer (observedBy ''b.md''
         (snd (findContribution_run ''c.txt''
           (snd (findContribution_run ''a.md'' (started [scoringY, changingP] 0))))))
       = [Inr 3, Inr 5]
   \<and> fst (findContribution_run ''b.md''
         (snd (findContribution_run ''c.txt''
           (snd (findContribution_run ''a.md'' (started [scoringY, changingP] 0))))))
       = Inr [changingP, scoringY]"
  using findContribution_run_snapshot
    [of "''a.md''" "started [scoringY, changingP] 0"
        "snd (findContribution_run ''c.txt''
           (snd (findContribution_run ''a.md'' (started [scoringY, changingP] 0))))"
        "''b.md''"]
  by (simp add: run_defs)

end
